theory Spec2Isabelle
  imports Complex_Main
begin

section \<open>Data model of the wallet core\<close>

text \<open>
  The wallet keeps its accounts in a Python list of dictionaries. The dictionaries are
  modelled as records holding the keys the code reads. A key the code reads with
  \<^verbatim>\<open>.get(key, default)\<close> is an optional field; a key it reads with \<^verbatim>\<open>d[key]\<close> and
  that every constructor in the repository sets is a plain field. Amounts are Python
  floats in the source; they are modelled as exact reals, so rounding is out of the model.
  Strings are byte strings.
\<close>

datatype py_error = IndexError | KeyError string | ValueError string

record transaction =
  tx_type :: string
  sender :: string
  recipient :: string
  amount :: real
  fee :: "real option"
  memo :: string
  timestamp :: "int option"
  status :: "string option"
  transaction_id :: "string option"
  block_height :: "int option"

record contact =
  contact_name :: string
  contact_address :: "string option"

record account =
  name :: string
  private_key :: string
  view_key :: string
  address :: string
  created_at :: int
  balance :: real
  transactions :: "transaction list"
  contacts :: "contact list"

record wallet =
  accounts :: "account list"
  is_encrypted :: bool
  encryption_key :: "string option"
  salt :: "string option"

text \<open>The argument of \<^verbatim>\<open>update_account\<close>: a dictionary of new values, one optional entry per key.\<close>

record account_updates =
  upd_name :: "string option"
  upd_private_key :: "string option"
  upd_view_key :: "string option"
  upd_address :: "string option"
  upd_created_at :: "int option"
  upd_balance :: "real option"
  upd_transactions :: "transaction list option"
  upd_contacts :: "contact list option"

subsection \<open>Python list primitives\<close>

text \<open>
  \<^verbatim>\<open>xs[i]\<close>, \<^verbatim>\<open>xs[i] = v\<close> and \<^verbatim>\<open>del xs[i]\<close>: a negative index counts from the end, and an
  index outside the list raises IndexError.
\<close>

definition py_norm_index :: "'a list \<Rightarrow> int \<Rightarrow> int" where
  "py_norm_index xs i = (if i < 0 then int (length xs) + i else i)"

definition py_getitem :: "'a list \<Rightarrow> int \<Rightarrow> py_error + 'a" where
  "py_getitem xs i =
     (let j = py_norm_index xs i
      in if 0 \<le> j \<and> j < int (length xs) then Inr (xs ! nat j) else Inl IndexError)"

definition py_setitem :: "'a list \<Rightarrow> int \<Rightarrow> 'a \<Rightarrow> py_error + 'a list" where
  "py_setitem xs i v =
     (let j = py_norm_index xs i
      in if 0 \<le> j \<and> j < int (length xs) then Inr (xs[nat j := v]) else Inl IndexError)"

definition py_delitem :: "'a list \<Rightarrow> int \<Rightarrow> py_error + 'a list" where
  "py_delitem xs i =
     (let j = py_norm_index xs i
      in if 0 \<le> j \<and> j < int (length xs)
         then Inr (take (nat j) xs @ drop (Suc (nat j)) xs) else Inl IndexError)"

text \<open>The slice \<^verbatim>\<open>xs[:n]\<close>: a negative bound counts from the end and is clamped at 0.\<close>

definition py_slice_to :: "'a list \<Rightarrow> int \<Rightarrow> 'a list" where
  "py_slice_to xs n = (if n < 0 then take (nat (int (length xs) + n)) xs else take (nat n) xs)"

definition startswith :: "string \<Rightarrow> string \<Rightarrow> bool" where
  "startswith s p = (take (length p) s = p)"

subsection \<open>AleoWalletCore: accessors\<close>

text \<open>
  Every mutator of the source ends with \<^verbatim>\<open>save_wallet()\<close>, which writes the wallet file,
  catches every exception and whose result the mutators drop; it does not touch the
  in-memory state, so the mutators below return the in-memory wallet only. The file
  written by \<^verbatim>\<open>save_wallet\<close> is modelled in the section on the encrypted vault.
\<close>

definition in_range :: "wallet \<Rightarrow> int \<Rightarrow> bool" where
  "in_range w index = (0 \<le> index \<and> index < int (length (accounts w)))"

definition get_account :: "wallet \<Rightarrow> int \<Rightarrow> py_error + account option" where
  "get_account w index =
     (if in_range w index
      then (case py_getitem (accounts w) index of Inl e \<Rightarrow> Inl e | Inr a \<Rightarrow> Inr (Some a))
      else Inr None)"

definition get_balance :: "wallet \<Rightarrow> int \<Rightarrow> py_error + real" where
  "get_balance w account_index =
     (if in_range w account_index
      then (case py_getitem (accounts w) account_index of
              Inl e \<Rightarrow> Inl e | Inr a \<Rightarrow> Inr (balance a))
      else Inr 0)"

definition get_transactions ::
  "wallet \<Rightarrow> int \<Rightarrow> int option \<Rightarrow> string option \<Rightarrow> py_error + transaction list" where
  "get_transactions w account_index limit filter_type =
     (if in_range w account_index
      then (case py_getitem (accounts w) account_index of
              Inl e \<Rightarrow> Inl e
            | Inr a \<Rightarrow>
                (let txs = transactions a;
                     txs1 = (case filter_type of
                               None \<Rightarrow> txs
                             | Some ft \<Rightarrow> if ft = [] then txs
                                          else filter (\<lambda>tx. tx_type tx = ft) txs);
                     txs2 = (case limit of None \<Rightarrow> txs1 | Some n \<Rightarrow> py_slice_to txs1 n)
                 in Inr txs2))
      else Inr [])"

definition get_contacts :: "wallet \<Rightarrow> int \<Rightarrow> py_error + contact list" where
  "get_contacts w account_index =
     (if in_range w account_index
      then (case py_getitem (accounts w) account_index of
              Inl e \<Rightarrow> Inl e | Inr a \<Rightarrow> Inr (contacts a))
      else Inr [])"


subsection \<open>AleoWalletCore: mutators\<close>

text \<open>A mutator returns what the call returns (or raises) together with the wallet it leaves.\<close>

definition safe_updates :: "account_updates \<Rightarrow> account_updates" where
  "safe_updates u = u\<lparr>upd_private_key := None, upd_address := None\<rparr>"

definition dict_update :: "account \<Rightarrow> account_updates \<Rightarrow> account" where
  "dict_update a u =
     a\<lparr>name := (case upd_name u of None \<Rightarrow> name a | Some v \<Rightarrow> v),
       private_key := (case upd_private_key u of None \<Rightarrow> private_key a | Some v \<Rightarrow> v),
       view_key := (case upd_view_key u of None \<Rightarrow> view_key a | Some v \<Rightarrow> v),
       address := (case upd_address u of None \<Rightarrow> address a | Some v \<Rightarrow> v),
       created_at := (case upd_created_at u of None \<Rightarrow> created_at a | Some v \<Rightarrow> v),
       balance := (case upd_balance u of None \<Rightarrow> balance a | Some v \<Rightarrow> v),
       transactions := (case upd_transactions u of None \<Rightarrow> transactions a | Some v \<Rightarrow> v),
       contacts := (case upd_contacts u of None \<Rightarrow> contacts a | Some v \<Rightarrow> v)\<rparr>"

text \<open>
  \<^verbatim>\<open>self.accounts[i]\<close> followed by a change of the dictionary found there: the
  account at \<^verbatim>\<open>i\<close> is read, changed by \<^verbatim>\<open>f\<close> and stored back in place.
\<close>

definition modify_account :: "wallet \<Rightarrow> int \<Rightarrow> (account \<Rightarrow> account) \<Rightarrow> py_error + wallet" where
  "modify_account w i f =
     (case py_getitem (accounts w) i of
        Inl e \<Rightarrow> Inl e
      | Inr a \<Rightarrow>
          (case py_setitem (accounts w) i (f a) of
             Inl e \<Rightarrow> Inl e
           | Inr accs \<Rightarrow> Inr (w\<lparr>accounts := accs\<rparr>)))"

definition update_account :: "wallet \<Rightarrow> int \<Rightarrow> account_updates \<Rightarrow> (py_error + bool) \<times> wallet" where
  "update_account w index updates =
     (if in_range w index
      then (case modify_account w index (\<lambda>a. dict_update a (safe_updates updates)) of
              Inl e \<Rightarrow> (Inl e, w)
            | Inr w' \<Rightarrow> (Inr True, w'))
      else (Inr False, w))"

definition delete_account :: "wallet \<Rightarrow> int \<Rightarrow> (py_error + bool) \<times> wallet" where
  "delete_account w index =
     (if in_range w index
      then (case py_delitem (accounts w) index of
              Inl e \<Rightarrow> (Inl e, w)
            | Inr accs \<Rightarrow> (Inr True, w\<lparr>accounts := accs\<rparr>))
      else (Inr False, w))"

text \<open>
  The signed amount a transaction applies to the balance when it is recorded: a
  \<^verbatim>\<open>Sent\<close> transaction takes amount plus fee (a missing fee counts 0), a \<^verbatim>\<open>Received\<close>
  one adds its amount, any other type leaves the balance alone.
\<close>

definition tx_delta :: "transaction \<Rightarrow> real" where
  "tx_delta tx =
     (if tx_type tx = ''Sent'' then - (amount tx + (case fee tx of None \<Rightarrow> 0 | Some f \<Rightarrow> f))
      else if tx_type tx = ''Received'' then amount tx
      else 0)"

definition stamp :: "int \<Rightarrow> transaction \<Rightarrow> transaction" where
  "stamp now tx = (case timestamp tx of None \<Rightarrow> tx\<lparr>timestamp := Some now\<rparr> | Some _ \<Rightarrow> tx)"

definition add_transaction ::
  "int \<Rightarrow> wallet \<Rightarrow> int \<Rightarrow> transaction \<Rightarrow> (py_error + bool) \<times> wallet" where
  "add_transaction now w account_index tx =
     (if in_range w account_index
      then (let tx' = stamp now tx
            in case modify_account w account_index
                      (\<lambda>a. a\<lparr>transactions := tx' # transactions a\<rparr>) of
                 Inl e \<Rightarrow> (Inl e, w)
               | Inr w1 \<Rightarrow>
                   (case modify_account w1 account_index
                           (\<lambda>a. a\<lparr>balance := balance a + tx_delta tx'\<rparr>) of
                      Inl e \<Rightarrow> (Inl e, w1)
                    | Inr w2 \<Rightarrow> (Inr True, w2)))
      else (Inr False, w))"

definition add_contact :: "wallet \<Rightarrow> int \<Rightarrow> contact \<Rightarrow> (py_error + bool) \<times> wallet" where
  "add_contact w account_index c =
     (if in_range w account_index
      then (if \<not> startswith (case contact_address c of None \<Rightarrow> [] | Some a \<Rightarrow> a) ''aleo1''
            then (Inr False, w)
            else (case modify_account w account_index
                         (\<lambda>a. a\<lparr>contacts := contacts a @ [c]\<rparr>) of
                    Inl e \<Rightarrow> (Inl e, w)
                  | Inr w' \<Rightarrow> (Inr True, w')))
      else (Inr False, w))"

definition remove_contact :: "wallet \<Rightarrow> int \<Rightarrow> int \<Rightarrow> (py_error + bool) \<times> wallet" where
  "remove_contact w account_index contact_index =
     (if in_range w account_index
      then (case py_getitem (accounts w) account_index of
              Inl e \<Rightarrow> (Inl e, w)
            | Inr a \<Rightarrow>
                (if 0 \<le> contact_index \<and> contact_index < int (length (contacts a))
                 then (case py_delitem (contacts a) contact_index of
                         Inl e \<Rightarrow> (Inl e, w)
                       | Inr cs \<Rightarrow>
                           (case modify_account w account_index (\<lambda>a. a\<lparr>contacts := cs\<rparr>) of
                              Inl e \<Rightarrow> (Inl e, w)
                            | Inr w' \<Rightarrow> (Inr True, w')))
                 else (Inr False, w)))
      else (Inr False, w))"

section \<open>TransactionManager\<close>







definition get_transaction :: "wallet \<Rightarrow> int \<Rightarrow> string \<Rightarrow> py_error + transaction option" where
  "get_transaction w account_index tid =
     (case get_transactions w account_index None None of
        Inl e \<Rightarrow> Inl e
      | Inr txs \<Rightarrow> Inr (find (\<lambda>tx. transaction_id tx = Some tid) txs))"

section \<open>BlockchainIntegration\<close>




text \<open>
  The loop of \<^verbatim>\<open>_update_account_balance\<close>: it reads \<^verbatim>\<open>tx["fee"]\<close> of a \<^verbatim>\<open>Sent\<close>
  transaction, which raises KeyError when the key is missing.
\<close>

fun sum_history :: "real \<Rightarrow> transaction list \<Rightarrow> py_error + real" where
  "sum_history bal [] = Inr bal"
| "sum_history bal (tx # txs) =
     (if tx_type tx = ''Received'' then sum_history (bal + amount tx) txs
      else if tx_type tx = ''Sent''
      then (case fee tx of
              None \<Rightarrow> Inl (KeyError ''fee'')
            | Some f \<Rightarrow> sum_history (bal - (amount tx + f)) txs)
      else sum_history bal txs)"

definition update_account_balance :: "wallet \<Rightarrow> int \<Rightarrow> (py_error + unit) \<times> wallet" where
  "update_account_balance w account_index =
     (case get_account w account_index of
        Inl e \<Rightarrow> (Inl e, w)
      | Inr None \<Rightarrow> (Inr (), w)
      | Inr (Some acct) \<Rightarrow>
          (case get_transactions w account_index None None of
             Inl e \<Rightarrow> (Inl e, w)
           | Inr txs \<Rightarrow>
               (case sum_history 0 txs of
                  Inl e \<Rightarrow> (Inl e, w)
                | Inr bal \<Rightarrow>
                    (case modify_account w account_index (\<lambda>a. a\<lparr>balance := bal\<rparr>) of
                       Inl e \<Rightarrow> (Inl e, w)
                     | Inr w' \<Rightarrow> (Inr (), w')))))"

section \<open>Base64 of the Python standard library\<close>

text \<open>
  \<^verbatim>\<open>base64.b64encode\<close> and \<^verbatim>\<open>base64.b64decode\<close> are not code of the repository; they
  are modelled here as CPython implements them, since the key derivation depends on
  how the decoder treats padding. A byte is a \<^typ>\<open>char\<close>. The encoder turns three bytes
  into four characters of the alphabet and pads the last group with \<^verbatim>\<open>=\<close>.
\<close>

definition b64_alphabet :: string where
  "b64_alphabet = ''ABCDEFGHIJKLMNOPQRSTUVWXYZabcdefghijklmnopqrstuvwxyz0123456789+/''"

definition b64_char :: "nat \<Rightarrow> char" where
  "b64_char n = b64_alphabet ! n"

fun b64encode :: "string \<Rightarrow> string" where
  "b64encode [] = []"
| "b64encode [a] =
     (let x = (of_char a :: nat)
      in [b64_char (x div 4), b64_char ((x mod 4) * 16), CHR ''='', CHR ''=''])"
| "b64encode [a, b] =
     (let x = (of_char a :: nat); y = (of_char b :: nat)
      in [b64_char (x div 4), b64_char ((x mod 4) * 16 + y div 16),
          b64_char ((y mod 16) * 4), CHR ''=''])"
| "b64encode (a # b # c # rest) =
     (let x = (of_char a :: nat); y = (of_char b :: nat); z = (of_char c :: nat)
      in [b64_char (x div 4), b64_char ((x mod 4) * 16 + y div 16),
          b64_char ((y mod 16) * 4 + z div 64), b64_char (z mod 64)] @ b64encode rest)"

fun index_of :: "'a \<Rightarrow> 'a list \<Rightarrow> nat option" where
  "index_of x [] = None"
| "index_of x (y # ys) = (if x = y then Some 0 else map_option Suc (index_of x ys))"

definition b64_value :: "char \<Rightarrow> nat option" where
  "b64_value c = index_of c b64_alphabet"

text \<open>
  The decoding loop of \<^verbatim>\<open>binascii.a2b_base64\<close> in its default, non-strict mode.
  \<^verbatim>\<open>q\<close> is the position in the current group of four, \<^verbatim>\<open>l\<close> the bits left over
  from the previous character, \<^verbatim>\<open>p\<close> the count of padding characters seen. A
  character outside the alphabet is skipped. A \<^verbatim>\<open>=\<close> that completes a group ends the
  decoding and the rest of the input is not read; any other \<^verbatim>\<open>=\<close> is skipped. Input
  that ends inside a group raises \<^verbatim>\<open>binascii.Error\<close>, a subclass of ValueError.
\<close>

fun a2b_base64 :: "nat \<Rightarrow> nat \<Rightarrow> nat \<Rightarrow> string \<Rightarrow> string \<Rightarrow> py_error + string" where
  "a2b_base64 q l p [] out =
     (if q = 0 then Inr out
      else if q = 1 then Inl (ValueError ''Invalid base64-encoded string'')
      else Inl (ValueError ''Incorrect padding''))"
| "a2b_base64 q l p (c # cs) out =
     (if c = CHR ''=''
      then (if 2 \<le> q \<and> 4 \<le> q + (p + 1) then Inr out
            else a2b_base64 q l (if 2 \<le> q then p + 1 else p) cs out)
      else (case b64_value c of
              None \<Rightarrow> a2b_base64 q l p cs out
            | Some v \<Rightarrow>
                (if q = 0 then a2b_base64 1 v 0 cs out
                 else if q = 1
                 then a2b_base64 2 (v mod 16) 0 cs (out @ [char_of (l * 4 + v div 16)])
                 else if q = 2
                 then a2b_base64 3 (v mod 4) 0 cs (out @ [char_of (l * 16 + v div 4)])
                 else a2b_base64 0 0 0 cs (out @ [char_of (l * 64 + v)]))))"

text \<open>
  \<^verbatim>\<open>b64decode\<close> of a \<^verbatim>\<open>str\<close>: the string is first encoded as ASCII, which raises
  ValueError when it holds a character above 127.
\<close>

definition b64decode :: "string \<Rightarrow> py_error + string" where
  "b64decode s =
     (if \<exists>c \<in> set s. 128 \<le> (of_char c :: nat)
      then Inl (ValueError ''string argument should contain only ASCII characters'')
      else a2b_base64 0 0 0 s [])"

section \<open>Key material\<close>

text \<open>
  \<^verbatim>\<open>hashlib.sha256(x).digest()\<close> is the argument \<^verbatim>\<open>H\<close> of the definitions that hash. The
  random seed of \<^verbatim>\<open>generate_account\<close> (\<^verbatim>\<open>secrets.token_bytes(32)\<close>) and the clock are
  arguments as well.
\<close>

fun digits_of :: "nat \<Rightarrow> nat \<Rightarrow> string" where
  "digits_of 0 n = []"
| "digits_of (Suc k) n =
     (if n < 10 then [char_of (48 + n)] else digits_of k (n div 10) @ [char_of (48 + n mod 10)])"

definition str_nat :: "nat \<Rightarrow> string" where
  "str_nat n = digits_of (Suc n) n"

definition name_or :: "string option \<Rightarrow> string \<Rightarrow> string" where
  "name_or nm dflt = (case nm of None \<Rightarrow> dflt | Some s \<Rightarrow> if s = [] then dflt else s)"

definition generate_account ::
  "(string \<Rightarrow> string) \<Rightarrow> string \<Rightarrow> int \<Rightarrow> wallet \<Rightarrow> string option \<Rightarrow> account \<times> wallet" where
  "generate_account H seed now w nm =
     (let private_key0 = ''APrivateKey1'' @ take 52 (b64encode seed);
          view_key_seed = H seed;
          view_key0 = ''AViewKey1'' @ take 46 (b64encode view_key_seed);
          address_seed = H view_key_seed;
          address0 = ''aleo1'' @ take 58 (b64encode address_seed);
          acct = \<lparr>name = name_or nm (''Account '' @ str_nat (length (accounts w) + 1)),
                  private_key = private_key0, view_key = view_key0, address = address0,
                  created_at = now, balance = 0, transactions = [], contacts = []\<rparr>
      in (acct, w\<lparr>accounts := accounts w @ [acct]\<rparr>))"

definition import_account_from_private_key ::
  "(string \<Rightarrow> string) \<Rightarrow> int \<Rightarrow> wallet \<Rightarrow> string \<Rightarrow> string option
     \<Rightarrow> (py_error + account) \<times> wallet" where
  "import_account_from_private_key H now w private_key0 nm =
     (if \<not> startswith private_key0 ''APrivateKey1''
      then (Inl (ValueError ''Invalid private key format''), w)
      else
        (let seed_b64 = drop (length ''APrivateKey1'') private_key0;
             seed = (case b64decode (seed_b64 @ ''=='') of
                       Inl e \<Rightarrow> H private_key0
                     | Inr s \<Rightarrow> s);
             view_key_seed = H seed;
             view_key0 = ''AViewKey1'' @ take 46 (b64encode view_key_seed);
             address_seed = H view_key_seed;
             address0 = ''aleo1'' @ take 58 (b64encode address_seed);
             acct = \<lparr>name = name_or nm
                              (''Imported Account '' @ str_nat (length (accounts w) + 1)),
                     private_key = private_key0, view_key = view_key0, address = address0,
                     created_at = now, balance = 0, transactions = [], contacts = []\<rparr>
         in (Inr acct, w\<lparr>accounts := accounts w @ [acct]\<rparr>)))"

section \<open>SecurityManager\<close>

text \<open>
  The settings dictionary always holds the keys of \<^verbatim>\<open>default_settings\<close>; the lockout
  time and the stored salt and hash (both base64 text) may be missing. \<^verbatim>\<open>P\<close> is
  PBKDF2-HMAC-SHA256 with 32 bytes of output, applied to the iteration count, the salt
  and the password; \<^verbatim>\<open>H\<close> is SHA-256. Any exception inside
  \<^verbatim>\<open>verify_master_password\<close> is caught and makes it return False.
\<close>

record security_settings =
  password_required :: bool
  auto_lock_timeout :: int
  failed_attempts_limit :: int
  pbkdf2_iterations :: int
  last_access :: int
  failed_attempts :: int
  locked :: bool
  lockout_time :: "int option"
  password_salt :: "string option"
  password_hash :: "string option"

definition default_settings :: security_settings where
  "default_settings =
     \<lparr>password_required = True, auto_lock_timeout = 300, failed_attempts_limit = 5,
      pbkdf2_iterations = 100000, last_access = 0, failed_attempts = 0, locked = False,
      lockout_time = None, password_salt = None, password_hash = None\<rparr>"

definition derive_key_from_password ::
  "(int \<Rightarrow> string \<Rightarrow> string \<Rightarrow> string) \<Rightarrow> security_settings \<Rightarrow> string \<Rightarrow> string \<Rightarrow> string" where
  "derive_key_from_password P s password salt0 = P (pbkdf2_iterations s) salt0 password"

definition create_master_password ::
  "(string \<Rightarrow> string) \<Rightarrow> (int \<Rightarrow> string \<Rightarrow> string \<Rightarrow> string) \<Rightarrow> string \<Rightarrow> int
     \<Rightarrow> security_settings \<Rightarrow> string \<Rightarrow> bool \<times> security_settings" where
  "create_master_password H P salt0 now s password =
     (let key = derive_key_from_password P s password salt0
      in (True, s\<lparr>password_salt := Some (b64encode salt0),
                   password_hash := Some (b64encode (H key)),
                   password_required := True, last_access := now,
                   failed_attempts := 0, locked := False\<rparr>))"

definition falsy :: "string option \<Rightarrow> bool" where
  "falsy v = (case v of None \<Rightarrow> True | Some x \<Rightarrow> x = [])"

definition text_of :: "string option \<Rightarrow> string" where
  "text_of v = (case v of None \<Rightarrow> [] | Some x \<Rightarrow> x)"

definition verify_master_password ::
  "(string \<Rightarrow> string) \<Rightarrow> (int \<Rightarrow> string \<Rightarrow> string \<Rightarrow> string) \<Rightarrow> int
     \<Rightarrow> security_settings \<Rightarrow> string \<Rightarrow> bool \<times> security_settings" where
  "verify_master_password H P now s password =
     (if \<not> password_required s then (True, s)
      else if locked s \<and> now - (case lockout_time s of None \<Rightarrow> 0 | Some t \<Rightarrow> t) < 3600
      then (False, s)
      else
        (let s1 = (if locked s then s\<lparr>locked := False, failed_attempts := 0\<rparr> else s)
         in if falsy (password_salt s1) \<or> falsy (password_hash s1) then (False, s1)
            else
              (case b64decode (text_of (password_salt s1)) of
                 Inl e \<Rightarrow> (False, s1)
               | Inr salt0 \<Rightarrow>
                   (case b64decode (text_of (password_hash s1)) of
                      Inl e \<Rightarrow> (False, s1)
                    | Inr stored_hash \<Rightarrow>
                        (let key = derive_key_from_password P s1 password salt0;
                             computed_hash = H key
                         in if computed_hash = stored_hash
                            then (True, s1\<lparr>failed_attempts := 0, last_access := now\<rparr>)
                            else
                              (let failed = failed_attempts s1 + 1;
                                   s2 = s1\<lparr>failed_attempts := failed\<rparr>;
                                   s3 = (if failed_attempts_limit s2 \<le> failed
                                         then s2\<lparr>locked := True, lockout_time := Some now\<rparr>
                                         else s2)
                               in (False, s3)))))))"

text \<open>A run of verification attempts, each at its own time; the results come in order.\<close>

fun verify_attempts ::
  "(string \<Rightarrow> string) \<Rightarrow> (int \<Rightarrow> string \<Rightarrow> string \<Rightarrow> string) \<Rightarrow> security_settings
     \<Rightarrow> (int \<times> string) list \<Rightarrow> bool list \<times> security_settings" where
  "verify_attempts H P s [] = ([], s)"
| "verify_attempts H P s ((now, pw) # rest) =
     (let (r, s') = verify_master_password H P now s pw;
          (rs, s'') = verify_attempts H P s' rest
      in (r # rs, s''))"

section \<open>Encrypted vault\<close>

text \<open>
  \<^verbatim>\<open>encrypt_wallet\<close>, \<^verbatim>\<open>save_wallet\<close> and \<^verbatim>\<open>decrypt_wallet\<close> call the \<^verbatim>\<open>cryptography\<close>
  package and \<^verbatim>\<open>json\<close>, which are not code of the repository. They enter as the
  fields of a record: \<^verbatim>\<open>pbkdf2 salt password\<close> is PBKDF2-HMAC-SHA256 with 100000
  iterations and 32 bytes of output, \<^verbatim>\<open>fernet_encrypt key rnd plaintext\<close> is
  \<^verbatim>\<open>Fernet(key).encrypt\<close> with its random IV and timestamp \<^verbatim>\<open>rnd\<close>,
  \<^verbatim>\<open>fernet_decrypt key token\<close> is \<^verbatim>\<open>Fernet(key).decrypt\<close> with \<open>None\<close> for
  \<^verbatim>\<open>InvalidToken\<close>, and \<^verbatim>\<open>json_dumps\<close>, \<^verbatim>\<open>json_loads\<close> serialise and parse the wallet
  data \<^verbatim>\<open>{"accounts": ..., "version": "1.0"}\<close>. The wallet file is \<open>None\<close> when it does
  not exist and its bytes otherwise. The salt of \<^verbatim>\<open>encrypt_wallet\<close> (\<^verbatim>\<open>os.urandom(16)\<close>)
  is an argument.
\<close>

record crypto =
  pbkdf2 :: "string \<Rightarrow> string \<Rightarrow> string"
  fernet_encrypt :: "string \<Rightarrow> string \<Rightarrow> string \<Rightarrow> string"
  fernet_decrypt :: "string \<Rightarrow> string \<Rightarrow> string option"
  json_dumps :: "account list \<Rightarrow> string"
  json_loads :: "string \<Rightarrow> account list option"

definition urlsafe_b64encode :: "string \<Rightarrow> string" where
  "urlsafe_b64encode s =
     map (\<lambda>c. if c = CHR ''+'' then CHR ''-'' else if c = CHR ''/'' then CHR ''_'' else c)
       (b64encode s)"

definition save_wallet :: "crypto \<Rightarrow> string \<Rightarrow> wallet \<Rightarrow> string option \<Rightarrow> bool \<times> string option" where
  "save_wallet c rnd w disk =
     (let json_data = json_dumps c (accounts w)
      in if is_encrypted w \<and> \<not> falsy (encryption_key w)
         then (case salt w of
                 None \<Rightarrow> (False, Some [])
               | Some s \<Rightarrow>
                   (True, Some (s @ fernet_encrypt c (text_of (encryption_key w)) rnd json_data)))
         else (True, Some json_data))"

definition encrypt_wallet ::
  "crypto \<Rightarrow> string \<Rightarrow> string \<Rightarrow> string \<Rightarrow> wallet \<Rightarrow> string option
     \<Rightarrow> bool \<times> wallet \<times> string option" where
  "encrypt_wallet c salt0 rnd password w disk =
     (let key = urlsafe_b64encode (pbkdf2 c salt0 password);
          w' = w\<lparr>encryption_key := Some key, salt := Some salt0, is_encrypted := True\<rparr>
      in (True, w', snd (save_wallet c rnd w' disk)))"

definition decrypt_wallet :: "crypto \<Rightarrow> string \<Rightarrow> wallet \<Rightarrow> string option \<Rightarrow> bool \<times> wallet" where
  "decrypt_wallet c password w disk =
     (case disk of
        None \<Rightarrow> (False, w)
      | Some encrypted_data \<Rightarrow>
          (let salt0 = take 16 encrypted_data;
               encrypted_content = drop 16 encrypted_data;
               key = urlsafe_b64encode (pbkdf2 c salt0 password)
           in case fernet_decrypt c key encrypted_content of
                None \<Rightarrow> (False, w)
              | Some decrypted_data \<Rightarrow>
                  (case json_loads c decrypted_data of
                     None \<Rightarrow> (False, w)
                   | Some accs \<Rightarrow>
                       (True, w\<lparr>accounts := accs, encryption_key := Some key,
                                 salt := Some salt0, is_encrypted := True\<rparr>))))"

text \<open>
  What the lockout theorem assumes of the settings: a salt and a hash are stored, both
  decode, and \<^verbatim>\<open>salt0\<close> and \<^verbatim>\<open>h\<close> are what they decode to. A password matches when
  the hash of its derived key is the stored hash.
\<close>

definition has_password :: "security_settings \<Rightarrow> string \<Rightarrow> string \<Rightarrow> bool" where
  "has_password s salt0 h =
     (\<not> falsy (password_salt s) \<and> \<not> falsy (password_hash s) \<and>
      b64decode (text_of (password_salt s)) = Inr salt0 \<and>
      b64decode (text_of (password_hash s)) = Inr h)"

definition password_matches ::
  "(string \<Rightarrow> string) \<Rightarrow> (int \<Rightarrow> string \<Rightarrow> string \<Rightarrow> string) \<Rightarrow> security_settings
     \<Rightarrow> string \<Rightarrow> string \<Rightarrow> string \<Rightarrow> bool" where
  "password_matches H P s salt0 h pw = (H (derive_key_from_password P s pw salt0) = h)"

section \<open>The balance invariant as the specification words it\<close>




section \<open>Concrete states used to instantiate the theorems\<close>

definition demo_account :: account where
  "demo_account =
     \<lparr>name = ''Main'', private_key = ''APrivateKey1x'', view_key = ''AViewKey1x'',
      address = ''aleo1x'', created_at = 0, balance = 0, transactions = [], contacts = []\<rparr>"

definition demo_wallet :: wallet where
  "demo_wallet =
     \<lparr>accounts = [demo_account], is_encrypted = False, encryption_key = None, salt = None\<rparr>"





text \<open>
  Stand-ins for SHA-256 and PBKDF2, used only to instantiate the theorems at concrete
  inputs; no theorem depends on them.
\<close>

definition toy_sha256 :: "string \<Rightarrow> string" where
  "toy_sha256 s = rev s"

definition toy_pbkdf2 :: "int \<Rightarrow> string \<Rightarrow> string \<Rightarrow> string" where
  "toy_pbkdf2 iterations salt0 password = salt0 @ password"

definition demo_settings :: security_settings where
  "demo_settings =
     snd (create_master_password toy_sha256 toy_pbkdf2 ''NaCl'' 100 default_settings ''hunter2'')"

definition demo_attempts :: "(int \<times> string) list" where
  "demo_attempts = [(101, ''a''), (102, ''b''), (103, ''c''), (104, ''d''), (105, ''e'')]"

text \<open>
  A stand-in for the cryptography package: the token is the key, a separator and the
  plaintext. It serves only to show that the assumptions of the vault theorem can be met.
\<close>

definition toy_crypto :: crypto where
  "toy_crypto =
     \<lparr>pbkdf2 = (\<lambda>salt0 pw. take 32 (salt0 @ pw @ replicate 32 (CHR ''0''))),
      fernet_encrypt = (\<lambda>k rnd m. k @ ''|'' @ m),
      fernet_decrypt = (\<lambda>k tok. if takeWhile (\<lambda>c. c \<noteq> CHR ''|'') tok = k \<and> length k < length tok
                                 then Some (drop (length k + 1) tok) else None),
      json_dumps = (\<lambda>accs. if accs = [] then ''[]'' else ''[1]''),
      json_loads = (\<lambda>s. if s = ''[]'' then Some []
                         else if s = ''[1]'' then Some [demo_account] else None)\<rparr>"

definition demo_salt :: string where
  "demo_salt = replicate 16 (CHR ''s'')"

definition unopened_wallet :: wallet where
  "unopened_wallet = \<lparr>accounts = [], is_encrypted = True, encryption_key = None, salt = None\<rparr>"

section \<open>Properties\<close>

subsection \<open>Python list primitives inside the guard\<close>

lemma py_getitem_in_range:
  "0 \<le> i \<Longrightarrow> i < int (length xs) \<Longrightarrow> py_getitem xs i = Inr (xs ! nat i)"
  by (simp add: py_getitem_def py_norm_index_def)

lemma py_setitem_in_range:
  "0 \<le> i \<Longrightarrow> i < int (length xs) \<Longrightarrow> py_setitem xs i v = Inr (xs[nat i := v])"
  by (simp add: py_setitem_def py_norm_index_def)

lemma py_delitem_in_range:
  "0 \<le> i \<Longrightarrow> i < int (length xs) \<Longrightarrow>
   py_delitem xs i = Inr (take (nat i) xs @ drop (Suc (nat i)) xs)"
  by (simp add: py_delitem_def py_norm_index_def)

lemma modify_account_in_range:
  "in_range w i \<Longrightarrow>
   modify_account w i f = Inr (w\<lparr>accounts := (accounts w)[nat i := f (accounts w ! nat i)]\<rparr>)"
  by (simp add: modify_account_def in_range_def py_getitem_in_range py_setitem_in_range)

lemma in_range_modify:
  "in_range (w\<lparr>accounts := (accounts w)[n := a]\<rparr>) i = in_range w i"
  by (simp add: in_range_def)

subsection \<open>Index-based operations are total\<close>

lemma py_getitem_no_error:
  "in_range w i \<Longrightarrow> py_getitem (accounts w) i = Inr (accounts w ! nat i)"
  by (simp add: in_range_def py_getitem_in_range)

text \<open>
  Claim C10. Every index-based accessor and mutator of the wallet core is total over
  arbitrary integer indices. For an index outside \<open>[0, number of accounts)\<close>,
  \<^verbatim>\<open>get_account\<close> returns None, \<^verbatim>\<open>get_balance\<close> returns 0.0, \<^verbatim>\<open>get_transactions\<close> and
  \<^verbatim>\<open>get_contacts\<close> return the empty list, and \<^verbatim>\<open>update_account\<close>, \<^verbatim>\<open>delete_account\<close>,
  \<^verbatim>\<open>add_transaction\<close>, \<^verbatim>\<open>add_contact\<close> and \<^verbatim>\<open>remove_contact\<close> return False and leave the
  wallet as it was. For no index at all does one of them raise IndexError.
\<close>

theorem index_operations_total:
  "(\<not> (0 \<le> i \<and> i < int (length (accounts w))) \<longrightarrow>
      get_account w i = Inr None \<and>
      get_balance w i = Inr 0 \<and>
      get_transactions w i lmt ft = Inr [] \<and>
      get_contacts w i = Inr [] \<and>
      update_account w i u = (Inr False, w) \<and>
      delete_account w i = (Inr False, w) \<and>
      add_transaction now w i tx = (Inr False, w) \<and>
      add_contact w i c = (Inr False, w) \<and>
      remove_contact w i j = (Inr False, w))
   \<and> get_account w i \<noteq> Inl IndexError
   \<and> get_balance w i \<noteq> Inl IndexError
   \<and> get_transactions w i lmt ft \<noteq> Inl IndexError
   \<and> get_contacts w i \<noteq> Inl IndexError
   \<and> fst (update_account w i u) \<noteq> Inl IndexError
   \<and> fst (delete_account w i) \<noteq> Inl IndexError
   \<and> fst (add_transaction now w i tx) \<noteq> Inl IndexError
   \<and> fst (add_contact w i c) \<noteq> Inl IndexError
   \<and> fst (remove_contact w i j) \<noteq> Inl IndexError"
proof (cases "in_range w i")
  case False
  then have "get_account w i = Inr None \<and>
      get_balance w i = Inr 0 \<and>
      get_transactions w i lmt ft = Inr [] \<and>
      get_contacts w i = Inr [] \<and>
      update_account w i u = (Inr False, w) \<and>
      delete_account w i = (Inr False, w) \<and>
      add_transaction now w i tx = (Inr False, w) \<and>
      add_contact w i c = (Inr False, w) \<and>
      remove_contact w i j = (Inr False, w)"
    by (simp add: get_account_def get_balance_def get_transactions_def
        get_contacts_def update_account_def delete_account_def add_transaction_def
        add_contact_def remove_contact_def)
  then show ?thesis by simp
next
  case True
  have g: "py_getitem (accounts w) i = Inr (accounts w ! nat i)"
    using True by (rule py_getitem_no_error)
  have d: "py_delitem (accounts w) i =
      Inr (take (nat i) (accounts w) @ drop (Suc (nat i)) (accounts w))"
    using True by (simp add: in_range_def py_delitem_in_range)
  have m: "\<And>f. modify_account w i f =
      Inr (w\<lparr>accounts := (accounts w)[nat i := f (accounts w ! nat i)]\<rparr>)"
    using True by (rule modify_account_in_range)
  have r: "\<And>a. in_range (w\<lparr>accounts := (accounts w)[nat i := a]\<rparr>) i"
    using True by (simp add: in_range_def)
  have 1: "get_account w i \<noteq> Inl IndexError" using True by (simp add: get_account_def g)
  have 2: "get_balance w i \<noteq> Inl IndexError" using True by (simp add: get_balance_def g)
  have 3: "get_transactions w i lmt ft \<noteq> Inl IndexError"
    using True by (simp add: get_transactions_def g Let_def)
  have 4: "get_contacts w i \<noteq> Inl IndexError" using True by (simp add: get_contacts_def g)
  have 5: "fst (update_account w i u) \<noteq> Inl IndexError"
    using True by (simp add: update_account_def m)
  have 6: "fst (delete_account w i) \<noteq> Inl IndexError"
    using True by (simp add: delete_account_def d)
  have 7: "fst (add_transaction now w i tx) \<noteq> Inl IndexError"
    using True by (simp add: add_transaction_def m Let_def modify_account_in_range r)
  have 8: "fst (add_contact w i c) \<noteq> Inl IndexError"
    using True by (simp add: add_contact_def m)
  have 9: "fst (remove_contact w i j) \<noteq> Inl IndexError"
    using True by (simp add: remove_contact_def m g py_delitem_in_range)
  from True 1 2 3 4 5 6 7 8 9 show ?thesis by (simp add: in_range_def)
qed

text \<open>
  The index \<open>-1\<close> names the last element of a Python list; the guard of the wallet
  core turns it down all the same.
\<close>

theorem index_operations_total_witness:
  "\<not> (0 \<le> (- 1 :: int) \<and> - 1 < int (length (accounts demo_wallet))) \<and>
   get_account demo_wallet (- 1) = Inr None \<and>
   get_balance demo_wallet (- 1) = Inr 0 \<and>
   get_transactions demo_wallet (- 1) None None = Inr [] \<and>
   get_contacts demo_wallet (- 1) = Inr [] \<and>
   delete_account demo_wallet (- 1) = (Inr False, demo_wallet) \<and>
   remove_contact demo_wallet (- 1) 0 = (Inr False, demo_wallet)"
  using index_operations_total [of "- 1" demo_wallet None None]
  by simp

subsection \<open>Transaction fee\<close>


subsection \<open>Connectivity probe\<close>


subsection \<open>Recording transactions and the balance\<close>













subsection \<open>Re-submitting a known transaction id\<close>









subsection \<open>Validation in transaction creation\<close>



subsection \<open>Base64: decoding inverts encoding\<close>

lemma index_of_nth: "distinct xs \<Longrightarrow> n < length xs \<Longrightarrow> index_of (xs ! n) xs = Some n"
proof (induction xs arbitrary: n)
  case Nil
  then show ?case by simp
next
  case (Cons x xs)
  show ?case
  proof (cases n)
    case 0
    then show ?thesis by simp
  next
    case (Suc m)
    with Cons.prems have "xs ! m \<noteq> x" by auto
    with Suc Cons show ?thesis by simp
  qed
qed

lemma b64_alphabet_distinct: "distinct b64_alphabet"
  by (simp add: b64_alphabet_def)

lemma b64_alphabet_length: "length b64_alphabet = 64"
  by (simp add: b64_alphabet_def)

lemma b64_value_char: "n < 64 \<Longrightarrow> b64_value (b64_char n) = Some n"
  by (simp add: b64_value_def b64_char_def index_of_nth b64_alphabet_distinct b64_alphabet_length)

lemma b64_char_mem: "n < 64 \<Longrightarrow> b64_char n \<in> set b64_alphabet"
  by (simp add: b64_char_def b64_alphabet_length)

lemma b64_char_not_pad: "n < 64 \<Longrightarrow> b64_char n \<noteq> CHR ''=''"
proof -
  have "CHR ''='' \<notin> set b64_alphabet" by (simp add: b64_alphabet_def)
  then show "n < 64 \<Longrightarrow> b64_char n \<noteq> CHR ''=''" using b64_char_mem by metis
qed

lemma b64_char_ascii: "n < 64 \<Longrightarrow> (of_char (b64_char n) :: nat) < 128"
proof -
  have "\<forall>c \<in> set b64_alphabet. (of_char c :: nat) < 128" by (simp add: b64_alphabet_def)
  then show "n < 64 \<Longrightarrow> (of_char (b64_char n) :: nat) < 128" using b64_char_mem by blast
qed

text \<open>One decoding step on a character of the alphabet.\<close>

lemma a2b_step:
  "n < 64 \<Longrightarrow>
   a2b_base64 q l p (b64_char n # cs) out =
     (if q = 0 then a2b_base64 1 n 0 cs out
      else if q = 1 then a2b_base64 2 (n mod 16) 0 cs (out @ [char_of (l * 4 + n div 16)])
      else if q = 2 then a2b_base64 3 (n mod 4) 0 cs (out @ [char_of (l * 16 + n div 4)])
      else a2b_base64 0 0 0 cs (out @ [char_of (l * 64 + n)]))"
  by (simp add: b64_value_char b64_char_not_pad)


lemma sextet_bounds:
  fixes x y z :: nat
  assumes "x < 256" "y < 256" "z < 256"
  shows "x div 4 < 64" "(x mod 4) * 16 < 64" "(x mod 4) * 16 + y div 16 < 64"
    "(y mod 16) * 4 < 64" "(y mod 16) * 4 + z div 64 < 64" "z mod 64 < 64"
proof -
  have a: "x mod 4 < 4" "y mod 16 < 16" by simp_all
  have b: "y div 16 < 16" "z div 64 < 4" "x div 4 < 64" using assms by simp_all
  show "x div 4 < 64" by (rule b)
  show "(x mod 4) * 16 < 64" using a by simp
  show "(x mod 4) * 16 + y div 16 < 64" using a b by linarith
  show "(y mod 16) * 4 < 64" using a by simp
  show "(y mod 16) * 4 + z div 64 < 64" using a b by linarith
  show "z mod 64 < 64" by simp
qed

lemma rebuild_1:
  fixes x y :: nat
  assumes "y < 256"
  shows "x div 4 * 4 + ((x mod 4) * 16 + y div 16) div 16 = x"
proof -
  have "y div 16 < 16" using assms by simp
  then have "((x mod 4) * 16 + y div 16) div 16 = x mod 4" by simp
  then show ?thesis by simp
qed

lemma rebuild_2:
  fixes x y z :: nat
  assumes "y < 256" "z < 256"
  shows "((x mod 4) * 16 + y div 16) mod 16 * 16 + ((y mod 16) * 4 + z div 64) div 4 = y"
proof -
  have a: "y div 16 < 16" "z div 64 < 4" using assms by simp_all
  have 1: "y div 16 mod 16 = y div 16" using a by simp
  have 2: "((y mod 16) * 4 + z div 64) div 4 = y mod 16" using a by simp
  show ?thesis by (simp add: 1 2)
qed

lemma rebuild_3:
  fixes y z :: nat
  assumes "z < 256"
  shows "((y mod 16) * 4 + z div 64) mod 4 * 64 + z mod 64 = z"
proof -
  have a: "z div 64 < 4" using assms by simp
  have 1: "z div 64 mod 4 = z div 64" using a by simp
  show ?thesis by (simp add: 1)
qed

lemma rebuild_1_pad:
  fixes x :: nat
  shows "x div 4 * 4 + ((x mod 4) * 16) div 16 = x"
  by simp

lemma rebuild_2_pad:
  fixes x y :: nat
  assumes "y < 256"
  shows "((x mod 4) * 16 + y div 16) mod 16 * 16 + ((y mod 16) * 4) div 4 = y"
proof -
  have a: "y div 16 < 16" using assms by simp
  have 1: "y div 16 mod 16 = y div 16" using a by simp
  show ?thesis by (simp add: 1)
qed

lemma a2b_pads_only:
  "set tail \<subseteq> {CHR ''=''} \<Longrightarrow> a2b_base64 0 l p tail out = Inr out"
  by (induction tail arbitrary: p) simp_all

lemma a2b_quad:
  assumes "s1 < 64" "s2 < 64" "s3 < 64" "s4 < 64"
  shows "a2b_base64 0 l p (b64_char s1 # b64_char s2 # b64_char s3 # b64_char s4 # cs) out =
         a2b_base64 0 0 0 cs
           (out @ [char_of (s1 * 4 + s2 div 16), char_of (s2 mod 16 * 16 + s3 div 4),
                   char_of (s3 mod 4 * 64 + s4)])"
  by (simp add: a2b_step assms del: a2b_base64.simps)

lemma a2b_triple_pad:
  assumes "s1 < 64" "s2 < 64" "s3 < 64"
  shows "a2b_base64 0 l p (b64_char s1 # b64_char s2 # b64_char s3 # CHR ''='' # cs) out =
         Inr (out @ [char_of (s1 * 4 + s2 div 16), char_of (s2 mod 16 * 16 + s3 div 4)])"
proof -
  have "a2b_base64 0 l p (b64_char s1 # b64_char s2 # b64_char s3 # CHR ''='' # cs) out =
        a2b_base64 3 (s3 mod 4) 0 (CHR ''='' # cs)
          (out @ [char_of (s1 * 4 + s2 div 16), char_of (s2 mod 16 * 16 + s3 div 4)])"
    by (simp add: a2b_step assms del: a2b_base64.simps)
  then show ?thesis by simp
qed

lemma a2b_pair_pad:
  assumes "s1 < 64" "s2 < 64"
  shows "a2b_base64 0 l p (b64_char s1 # b64_char s2 # CHR ''='' # CHR ''='' # cs) out =
         Inr (out @ [char_of (s1 * 4 + s2 div 16)])"
proof -
  have "a2b_base64 0 l p (b64_char s1 # b64_char s2 # CHR ''='' # CHR ''='' # cs) out =
        a2b_base64 2 (s2 mod 16) 0 (CHR ''='' # CHR ''='' # cs)
          (out @ [char_of (s1 * 4 + s2 div 16)])"
    by (simp add: a2b_step assms del: a2b_base64.simps)
  then show ?thesis by simp
qed

lemma a2b_group:
  fixes x y z :: nat
  assumes "x < 256" "y < 256" "z < 256"
  shows "a2b_base64 0 l p
           (b64_char (x div 4) # b64_char ((x mod 4) * 16 + y div 16) #
            b64_char ((y mod 16) * 4 + z div 64) # b64_char (z mod 64) # cs) out =
         a2b_base64 0 0 0 cs (out @ [char_of x, char_of y, char_of z])"
proof -
  note b = sextet_bounds [OF assms]
  show ?thesis
    unfolding a2b_quad [OF b(1) b(3) b(5) b(6)]
    by (simp only: rebuild_1 [OF assms(2)] rebuild_2 [OF assms(2) assms(3)]
        rebuild_3 [OF assms(3)])
qed

lemma a2b_group_two:
  fixes x y :: nat
  assumes "x < 256" "y < 256"
  shows "a2b_base64 0 l p
           (b64_char (x div 4) # b64_char ((x mod 4) * 16 + y div 16) #
            b64_char ((y mod 16) * 4) # CHR ''='' # cs) out =
         Inr (out @ [char_of x, char_of y])"
proof -
  note b = sextet_bounds [OF assms assms(2)]
  show ?thesis
    unfolding a2b_triple_pad [OF b(1) b(3) b(4)]
    by (simp only: rebuild_1 [OF assms(2)] rebuild_2_pad [OF assms(2)])
qed

lemma a2b_group_one:
  fixes x :: nat
  assumes "x < 256"
  shows "a2b_base64 0 l p
           (b64_char (x div 4) # b64_char ((x mod 4) * 16) # CHR ''='' # CHR ''='' # cs) out =
         Inr (out @ [char_of x])"
proof -
  note b = sextet_bounds [OF assms assms assms]
  show ?thesis
    unfolding a2b_pair_pad [OF b(1) b(2)]
    by (simp only: rebuild_1_pad)
qed

lemma a2b_encode:
  "set tail \<subseteq> {CHR ''=''} \<Longrightarrow>
   a2b_base64 0 l p (b64encode bs @ tail) out = Inr (out @ bs)"
proof (induction bs arbitrary: l p out rule: b64encode.induct)
  case 1
  then show ?case by (simp add: a2b_pads_only)
next
  case (2 a)
  show ?case
    using a2b_group_one [of "of_char a" l p tail out]
    by (simp add: Let_def del: a2b_base64.simps)
next
  case (3 a b)
  show ?case
    using a2b_group_two [of "of_char a" "of_char b" l p tail out]
    by (simp add: Let_def del: a2b_base64.simps)
next
  case (4 a b c rest)
  show ?case
    using a2b_group [of "of_char a" "of_char b" "of_char c" l p "b64encode rest @ tail" out]
      "4.IH" [OF refl refl refl "4.prems", of 0 0 "out @ [a, b, c]"]
    by (simp add: Let_def del: a2b_base64.simps)
qed

lemma b64encode_ascii: "\<forall>c \<in> set (b64encode bs). (of_char c :: nat) < 128"
proof (induction bs rule: b64encode.induct)
  case 1
  then show ?case by simp
next
  case (2 a)
  note b = sextet_bounds [of "of_char a" "of_char a" "of_char a"]
  show ?case by (simp add: Let_def b64_char_ascii b)
next
  case (3 a b)
  note b = sextet_bounds [of "of_char a" "of_char b" "of_char b"]
  show ?case by (simp add: Let_def b64_char_ascii b)
next
  case (4 a b c rest)
  note b = sextet_bounds [of "of_char a" "of_char b" "of_char c"]
  from 4 show ?case by (simp add: Let_def b64_char_ascii b)
qed

lemma b64decode_encode_padded:
  "set tail \<subseteq> {CHR ''=''} \<Longrightarrow> b64decode (b64encode bs @ tail) = Inr bs"
proof -
  assume t: "set tail \<subseteq> {CHR ''=''}"
  have "\<forall>c \<in> set (b64encode bs @ tail). (of_char c :: nat) < 128"
    using b64encode_ascii [of bs] t by auto
  then have "\<not> (\<exists>c \<in> set (b64encode bs @ tail). 128 \<le> (of_char c :: nat))"
    by (simp add: not_le)
  then show ?thesis
    using a2b_encode [OF t, of 0 0 bs "[]"] by (simp add: b64decode_def)
qed

lemma b64decode_encode: "b64decode (b64encode bs) = Inr bs"
  using b64decode_encode_padded [of "[]" bs] by simp

lemma length_b64encode: "length (b64encode bs) = 4 * ((length bs + 2) div 3)"
proof (induction bs rule: b64encode.induct)
  case (4 a b c rest)
  have "(length (a # b # c # rest) + 2) div 3 = Suc ((length rest + 2) div 3)" by simp
  with "4.IH" [OF refl refl refl] show ?case by (simp add: Let_def)
qed (simp_all add: Let_def)

subsection \<open>Importing a private key\<close>

lemma startswith_append: "startswith (p @ s) p"
  by (simp add: startswith_def)

lemma import_of_generated:
  assumes "length seed = 32"
  shows "fst (import_account_from_private_key H t2 w2
            (private_key (fst (generate_account H seed t1 w1 n1))) n2) =
         Inr \<lparr>name = name_or n2 (''Imported Account '' @ str_nat (length (accounts w2) + 1)),
              private_key = private_key (fst (generate_account H seed t1 w1 n1)),
              view_key = view_key (fst (generate_account H seed t1 w1 n1)),
              address = address (fst (generate_account H seed t1 w1 n1)),
              created_at = t2, balance = 0, transactions = [], contacts = []\<rparr>"
proof -
  have len: "length (b64encode seed) = 44" using assms by (simp add: length_b64encode)
  then have tk: "take 52 (b64encode seed) = b64encode seed" by simp
  have pk: "private_key (fst (generate_account H seed t1 w1 n1)) = ''APrivateKey1'' @ b64encode seed"
    by (simp add: generate_account_def Let_def tk)
  have sw: "startswith (''APrivateKey1'' @ b64encode seed) ''APrivateKey1''"
    by (rule startswith_append)
  have dr: "drop (length ''APrivateKey1'') (''APrivateKey1'' @ b64encode seed) = b64encode seed"
    by simp
  have dec: "b64decode (b64encode seed @ ''=='') = Inr seed"
    by (rule b64decode_encode_padded) simp
  show ?thesis
    unfolding pk
    by (simp only: import_account_from_private_key_def sw dr dec Let_def)
       (simp add: generate_account_def Let_def tk)
qed

text \<open>
  Claim C5. Importing an account from a private key is deterministic: two import calls
  with the same private key, on whatever wallets and at whatever times, give the same
  view key and address (or both raise). For a private key that account generation made
  from a 32-byte seed, the imported view key and address are the ones generation derived
  from that seed.
\<close>

theorem import_matches_generate:
  "(length seed = 32 \<longrightarrow>
      (\<exists>a. fst (import_account_from_private_key H t2 w2
                  (private_key (fst (generate_account H seed t1 w1 n1))) n2) = Inr a \<and>
           view_key a = view_key (fst (generate_account H seed t1 w1 n1)) \<and>
           address a = address (fst (generate_account H seed t1 w1 n1))))
   \<and> map_sum id (\<lambda>a. (view_key a, address a))
        (fst (import_account_from_private_key H t3 w3 pk n3)) =
      map_sum id (\<lambda>a. (view_key a, address a))
        (fst (import_account_from_private_key H t4 w4 pk n4))"
proof -
  have d: "map_sum id (\<lambda>a. (view_key a, address a))
        (fst (import_account_from_private_key H t3 w3 pk n3)) =
      map_sum id (\<lambda>a. (view_key a, address a))
        (fst (import_account_from_private_key H t4 w4 pk n4))"
    by (simp add: import_account_from_private_key_def Let_def)
  show ?thesis using d by (simp add: import_of_generated)
qed

theorem import_matches_generate_witness:
  "length (replicate 32 (CHR ''k'')) = 32 \<and>
   (\<exists>a. fst (import_account_from_private_key (\<lambda>s. rev s) 7 demo_wallet
               (private_key (fst (generate_account (\<lambda>s. rev s) (replicate 32 (CHR ''k'')) 3
                                   demo_wallet None))) None) = Inr a \<and>
        view_key a = view_key (fst (generate_account (\<lambda>s. rev s) (replicate 32 (CHR ''k'')) 3
                                   demo_wallet None)) \<and>
        address a = address (fst (generate_account (\<lambda>s. rev s) (replicate 32 (CHR ''k'')) 3
                                   demo_wallet None)))"
  using import_matches_generate
    [of "replicate 32 (CHR ''k'')" "\<lambda>s. rev s" 7 demo_wallet 3 demo_wallet None None]
  by simp

subsection \<open>Lockout after failed password verifications\<close>

lemma has_password_counter [simp]:
  "has_password (s\<lparr>failed_attempts := n\<rparr>) salt0 h = has_password s salt0 h"
  by (simp add: has_password_def)

lemma password_matches_counter [simp]:
  "password_matches H P (s\<lparr>failed_attempts := n\<rparr>) salt0 h pw = password_matches H P s salt0 h pw"
  by (simp add: password_matches_def derive_key_from_password_def)

lemma verify_locked:
  assumes "password_required s" "locked s" "lockout_time s = Some t" "now - t < 3600"
  shows "verify_master_password H P now s pw = (False, s)"
  using assms by (simp add: verify_master_password_def)

lemma verify_wrong:
  assumes "password_required s" "\<not> locked s" "has_password s salt0 h"
    "\<not> password_matches H P s salt0 h pw"
  shows "verify_master_password H P now s pw =
     (False, if failed_attempts_limit s \<le> failed_attempts s + 1
             then s\<lparr>failed_attempts := failed_attempts s + 1, locked := True,
                    lockout_time := Some now\<rparr>
             else s\<lparr>failed_attempts := failed_attempts s + 1\<rparr>)"
  using assms
  by (simp add: verify_master_password_def has_password_def password_matches_def Let_def
      derive_key_from_password_def)

lemma verify_right:
  assumes "password_required s" "\<not> locked s" "has_password s salt0 h"
    "password_matches H P s salt0 h pw"
  shows "verify_master_password H P now s pw =
     (True, s\<lparr>failed_attempts := 0, last_access := now\<rparr>)"
  using assms
  by (simp add: verify_master_password_def has_password_def password_matches_def Let_def
      derive_key_from_password_def)

lemma verify_attempts_below_limit:
  assumes "password_required s" "\<not> locked s" "has_password s salt0 h"
    "\<forall>a \<in> set attempts. \<not> password_matches H P s salt0 h (snd a)"
    "failed_attempts s + int (length attempts) < failed_attempts_limit s"
  shows "verify_attempts H P s attempts =
     (replicate (length attempts) False,
      if attempts = [] then s
      else s\<lparr>failed_attempts := failed_attempts s + int (length attempts)\<rparr>)"
  using assms
proof (induction attempts arbitrary: s)
  case Nil
  then show ?case by simp
next
  case (Cons a attempts)
  obtain now pw where a: "a = (now, pw)" by (cases a)
  let ?s1 = "s\<lparr>failed_attempts := failed_attempts s + 1\<rparr>"
  have w: "\<not> password_matches H P s salt0 h pw" using Cons.prems(4) a by simp
  have lim: "\<not> failed_attempts_limit s \<le> failed_attempts s + 1" using Cons.prems(5) by simp
  have step: "verify_master_password H P now s pw = (False, ?s1)"
    using verify_wrong [OF Cons.prems(1) Cons.prems(2) Cons.prems(3) w, of now] lim by simp
  have ih: "verify_attempts H P ?s1 attempts =
     (replicate (length attempts) False,
      if attempts = [] then ?s1
      else ?s1\<lparr>failed_attempts := failed_attempts ?s1 + int (length attempts)\<rparr>)"
    using Cons.prems by (intro Cons.IH) simp_all
  show ?case by (simp add: a step ih)
qed


lemma verify_attempts_append:
  "verify_attempts H P s (xs @ ys) =
     (fst (verify_attempts H P s xs) @ fst (verify_attempts H P (snd (verify_attempts H P s xs)) ys),
      snd (verify_attempts H P (snd (verify_attempts H P s xs)) ys))"
proof (induction xs arbitrary: s)
  case Nil
  then show ?case by simp
next
  case (Cons a xs)
  obtain now pw where a: "a = (now, pw)" by (cases a)
  show ?case by (simp add: a Cons.IH split: prod.splits)
qed

lemma verify_right_general:
  assumes "password_required s" "has_password s salt0 h" "password_matches H P s salt0 h pw"
    "locked s \<longrightarrow> 3600 \<le> now - (case lockout_time s of None \<Rightarrow> 0 | Some t \<Rightarrow> t)"
  shows "fst (verify_master_password H P now s pw) \<and>
         failed_attempts (snd (verify_master_password H P now s pw)) = 0 \<and>
         last_access (snd (verify_master_password H P now s pw)) = now"
proof -
  have c: "\<not> (locked s \<and> now - (case lockout_time s of None \<Rightarrow> 0 | Some t \<Rightarrow> t) < 3600)"
    using assms(4) by auto
  show ?thesis
    using assms(1-3) c
    by (cases "locked s")
      (simp_all add: verify_master_password_def has_password_def password_matches_def Let_def
        derive_key_from_password_def)
qed

lemma verify_attempts_reach_limit:
  assumes req: "password_required s" and nl: "\<not> locked s" and z: "failed_attempts s = 0"
    and hp: "has_password s salt0 h" and l1: "1 \<le> failed_attempts_limit s"
    and len: "int (length attempts) = failed_attempts_limit s"
    and wrong: "\<forall>a \<in> set attempts. \<not> password_matches H P s salt0 h (snd a)"
  shows "verify_attempts H P s attempts =
     (replicate (length attempts) False,
      s\<lparr>failed_attempts := failed_attempts_limit s, locked := True,
        lockout_time := Some (fst (last attempts))\<rparr>)"
proof -
  have ne: "attempts \<noteq> []" using l1 len by auto
  let ?xs = "butlast attempts"
  obtain now pw where lst: "last attempts = (now, pw)" by (cases "last attempts")
  have split: "attempts = ?xs @ [(now, pw)]" using ne lst by (metis append_butlast_last_id)
  have "length attempts = Suc (length ?xs)" using ne by (cases attempts) simp_all
  then have lx: "int (length ?xs) = failed_attempts_limit s - 1" using len by simp
  have wx: "\<forall>a \<in> set ?xs. \<not> password_matches H P s salt0 h (snd a)"
    using wrong by (meson in_set_butlastD)
  have wl: "\<not> password_matches H P s salt0 h pw" using wrong ne lst
    by (metis last_in_set snd_conv)
  have below: "failed_attempts s + int (length ?xs) < failed_attempts_limit s"
    using z lx by simp
  let ?s1 = "if ?xs = [] then s else s\<lparr>failed_attempts := failed_attempts s + int (length ?xs)\<rparr>"
  have first: "verify_attempts H P s ?xs = (replicate (length ?xs) False, ?s1)"
    by (rule verify_attempts_below_limit [OF req nl hp wx below])
  have s1: "?s1 = s\<lparr>failed_attempts := failed_attempts_limit s - 1\<rparr>"
    using z lx by (cases "?xs = []") simp_all
  have p1: "password_required ?s1" "\<not> locked ?s1" "has_password ?s1 salt0 h"
    "\<not> password_matches H P ?s1 salt0 h pw"
    using req nl hp wl by simp_all
  have last_step: "verify_master_password H P now ?s1 pw =
     (False, s\<lparr>failed_attempts := failed_attempts_limit s, locked := True,
               lockout_time := Some now\<rparr>)"
    using verify_wrong [OF p1, of now] by (simp add: s1)
  have "verify_attempts H P s (?xs @ [(now, pw)]) =
     (replicate (length ?xs) False @ [False],
      s\<lparr>failed_attempts := failed_attempts_limit s, locked := True, lockout_time := Some now\<rparr>)"
    unfolding verify_attempts_append first by (simp add: last_step)
  moreover have "replicate (length ?xs) False @ [False] = replicate (length attempts) False"
    using ne by (metis length_append_singleton replicate_Suc replicate_append_same split)
  ultimately show ?thesis using split lst by simp
qed

lemma b64encode_nonempty: "s \<noteq> [] \<Longrightarrow> b64encode s \<noteq> []"
  by (cases s rule: b64encode.cases) (simp_all add: Let_def)

lemma has_password_created:
  "salt0 \<noteq> [] \<Longrightarrow> H (derive_key_from_password P s pw salt0) \<noteq> [] \<Longrightarrow>
   has_password (snd (create_master_password H P salt0 now s pw)) salt0
     (H (derive_key_from_password P s pw salt0))"
  by (simp add: has_password_def create_master_password_def Let_def falsy_def text_of_def
      b64encode_nonempty b64decode_encode)

text \<open>
  Claim C8. With a master password set and required, the wallet unlocked and the counter
  at 0, a run of as many failed verifications as the configured limit (5 by default)
  locks the wallet, and not before the last of them. While it is locked and less than the
  cool-down of 3600 seconds has passed since the locking attempt, every verification is
  turned down and changes nothing, whatever the password and without the hash functions
  being consulted. A verification that succeeds sets the failed-attempt counter to 0
  and the last-access time to the time of the call.
\<close>

theorem lockout_after_failed_attempts:
  assumes "password_required s" and "\<not> locked s" and "failed_attempts s = 0"
    and "has_password s salt0 h" and "1 \<le> failed_attempts_limit s"
    and "int (length attempts) = failed_attempts_limit s"
    and "\<forall>a \<in> set attempts. \<not> password_matches H P s salt0 h (snd a)"
  shows "fst (verify_attempts H P s attempts) = replicate (length attempts) False \<and>
    locked (snd (verify_attempts H P s attempts)) \<and>
    (\<forall>k < length attempts. \<not> locked (snd (verify_attempts H P s (take k attempts)))) \<and>
    (\<forall>H' P' now pw. now - fst (last attempts) < 3600 \<longrightarrow>
       verify_master_password H' P' now (snd (verify_attempts H P s attempts)) pw =
         (False, snd (verify_attempts H P s attempts))) \<and>
    (\<forall>s0 now pw. password_required s0 \<and> has_password s0 salt0 h \<and>
       password_matches H P s0 salt0 h pw \<and>
       (locked s0 \<longrightarrow> 3600 \<le> now - (case lockout_time s0 of None \<Rightarrow> 0 | Some t \<Rightarrow> t)) \<longrightarrow>
       fst (verify_master_password H P now s0 pw) \<and>
       failed_attempts (snd (verify_master_password H P now s0 pw)) = 0 \<and>
       last_access (snd (verify_master_password H P now s0 pw)) = now)"
proof -
  note fin = verify_attempts_reach_limit [OF assms]
  have 1: "fst (verify_attempts H P s attempts) = replicate (length attempts) False"
    by (simp add: fin)
  have 2: "locked (snd (verify_attempts H P s attempts))" by (simp add: fin)
  have 3: "\<forall>k < length attempts. \<not> locked (snd (verify_attempts H P s (take k attempts)))"
  proof (intro allI impI)
    fix k assume k: "k < length attempts"
    have w: "\<forall>a \<in> set (take k attempts). \<not> password_matches H P s salt0 h (snd a)"
      using assms(7) by (meson in_set_takeD)
    have b: "failed_attempts s + int (length (take k attempts)) < failed_attempts_limit s"
      using k assms(3) assms(6) by simp
    show "\<not> locked (snd (verify_attempts H P s (take k attempts)))"
      unfolding verify_attempts_below_limit [OF assms(1) assms(2) assms(4) w b]
      using assms(2) by simp
  qed
  have 4: "\<forall>H' P' now pw. now - fst (last attempts) < 3600 \<longrightarrow>
       verify_master_password H' P' now (snd (verify_attempts H P s attempts)) pw =
         (False, snd (verify_attempts H P s attempts))"
    using assms(1) by (simp add: fin verify_master_password_def)
  have 5: "\<forall>s0 now pw. password_required s0 \<and> has_password s0 salt0 h \<and>
       password_matches H P s0 salt0 h pw \<and>
       (locked s0 \<longrightarrow> 3600 \<le> now - (case lockout_time s0 of None \<Rightarrow> 0 | Some t \<Rightarrow> t)) \<longrightarrow>
       fst (verify_master_password H P now s0 pw) \<and>
       failed_attempts (snd (verify_master_password H P now s0 pw)) = 0 \<and>
       last_access (snd (verify_master_password H P now s0 pw)) = now"
    using verify_right_general by blast
  from 1 2 3 4 5 show ?thesis by blast
qed

theorem lockout_after_failed_attempts_witness:
  "password_required demo_settings \<and> \<not> locked demo_settings \<and>
   failed_attempts demo_settings = 0 \<and>
   has_password demo_settings ''NaCl'' (rev ''NaClhunter2'') \<and>
   1 \<le> failed_attempts_limit demo_settings \<and>
   int (length demo_attempts) = failed_attempts_limit demo_settings \<and>
   \<not> password_matches toy_sha256 toy_pbkdf2 demo_settings ''NaCl'' (rev ''NaClhunter2'') ''a'' \<and>
   password_matches toy_sha256 toy_pbkdf2 demo_settings ''NaCl'' (rev ''NaClhunter2'') ''hunter2'' \<and>
   fst (verify_attempts toy_sha256 toy_pbkdf2 demo_settings demo_attempts) =
     [False, False, False, False, False] \<and>
   locked (snd (verify_attempts toy_sha256 toy_pbkdf2 demo_settings demo_attempts)) \<and>
   verify_master_password toy_sha256 toy_pbkdf2 3704
       (snd (verify_attempts toy_sha256 toy_pbkdf2 demo_settings demo_attempts)) ''hunter2'' =
     (False, snd (verify_attempts toy_sha256 toy_pbkdf2 demo_settings demo_attempts)) \<and>
   fst (verify_master_password toy_sha256 toy_pbkdf2 3705
       (snd (verify_attempts toy_sha256 toy_pbkdf2 demo_settings demo_attempts)) ''hunter2'') \<and>
   fst (verify_master_password toy_sha256 toy_pbkdf2 200 demo_settings ''hunter2'')"
proof -
  have h1: "password_required demo_settings"
    by (simp add: demo_settings_def create_master_password_def Let_def)
  have h2: "\<not> locked demo_settings"
    by (simp add: demo_settings_def create_master_password_def Let_def)
  have h3: "failed_attempts demo_settings = 0"
    by (simp add: demo_settings_def create_master_password_def Let_def)
  have k: "toy_sha256 (derive_key_from_password toy_pbkdf2 default_settings ''hunter2'' ''NaCl'') =
           rev ''NaClhunter2''"
    by (simp add: toy_sha256_def toy_pbkdf2_def derive_key_from_password_def)
  have h4: "has_password demo_settings ''NaCl'' (rev ''NaClhunter2'')"
    unfolding demo_settings_def
    using has_password_created [of "''NaCl''" toy_sha256 toy_pbkdf2 default_settings "''hunter2''" 100]
    by (simp add: k)
  have lim: "failed_attempts_limit demo_settings = 5"
    by (simp add: demo_settings_def create_master_password_def Let_def default_settings_def)
  have h5: "1 \<le> failed_attempts_limit demo_settings" by (simp add: lim)
  have h6: "int (length demo_attempts) = failed_attempts_limit demo_settings"
    by (simp add: lim demo_attempts_def)
  have h7: "\<forall>a \<in> set demo_attempts.
      \<not> password_matches toy_sha256 toy_pbkdf2 demo_settings ''NaCl'' (rev ''NaClhunter2'') (snd a)"
    by (simp add: demo_attempts_def password_matches_def toy_sha256_def toy_pbkdf2_def
        derive_key_from_password_def)
  have m: "password_matches toy_sha256 toy_pbkdf2 s ''NaCl'' (rev ''NaClhunter2'') ''hunter2''" for s
    by (simp add: password_matches_def toy_sha256_def toy_pbkdf2_def derive_key_from_password_def)
  note t = lockout_after_failed_attempts [OF h1 h2 h3 h4 h5 h6 h7]
  let ?s' = "snd (verify_attempts toy_sha256 toy_pbkdf2 demo_settings demo_attempts)"
  have lst: "fst (last demo_attempts) = 105" by (simp add: demo_attempts_def)
  have r: "replicate (length demo_attempts) False = [False, False, False, False, False]"
    by (simp add: demo_attempts_def)
  have c1: "fst (verify_attempts toy_sha256 toy_pbkdf2 demo_settings demo_attempts) =
     [False, False, False, False, False]"
    using t r by simp
  have c2: "locked ?s'" using t by simp
  have c3: "verify_master_password toy_sha256 toy_pbkdf2 3704 ?s' ''hunter2'' = (False, ?s')"
    using t lst by simp
  have fin: "?s' = demo_settings\<lparr>failed_attempts := 5, locked := True, lockout_time := Some 105\<rparr>"
    using verify_attempts_reach_limit [OF h1 h2 h3 h4 h5 h6 h7] lim lst by simp
  have c4: "fst (verify_master_password toy_sha256 toy_pbkdf2 3705 ?s' ''hunter2'')"
  proof -
    have "password_required ?s' \<and> has_password ?s' ''NaCl'' (rev ''NaClhunter2'') \<and>
       password_matches toy_sha256 toy_pbkdf2 ?s' ''NaCl'' (rev ''NaClhunter2'') ''hunter2'' \<and>
       (locked ?s' \<longrightarrow> 3600 \<le> 3705 - (case lockout_time ?s' of None \<Rightarrow> 0 | Some t \<Rightarrow> t))"
      using h1 h4 m by (simp add: fin has_password_def)
    then show ?thesis using t by blast
  qed
  have c5: "fst (verify_master_password toy_sha256 toy_pbkdf2 200 demo_settings ''hunter2'')"
  proof -
    have "password_required demo_settings \<and> has_password demo_settings ''NaCl'' (rev ''NaClhunter2'') \<and>
       password_matches toy_sha256 toy_pbkdf2 demo_settings ''NaCl'' (rev ''NaClhunter2'') ''hunter2'' \<and>
       (locked demo_settings \<longrightarrow>
          3600 \<le> 200 - (case lockout_time demo_settings of None \<Rightarrow> 0 | Some t \<Rightarrow> t))"
      using h1 h2 h4 m by simp
    then show ?thesis using t by blast
  qed
  have w: "\<not> password_matches toy_sha256 toy_pbkdf2 demo_settings ''NaCl''
      (rev ''NaClhunter2'') ''a''"
    using h7 by (simp add: demo_attempts_def)
  from h1 h2 h3 h4 h5 h6 w m c1 c2 c3 c4 c5 show ?thesis by blast
qed

subsection \<open>Vault round trip\<close>

lemma b64_char_in_alphabet: "n < 64 \<Longrightarrow> b64_char n \<in> set b64_alphabet"
  by (simp add: b64_char_def b64_alphabet_length)

lemma b64encode_chars: "set (b64encode bs) \<subseteq> insert (CHR ''='') (set b64_alphabet)"
proof (induction bs rule: b64encode.induct)
  case 1
  then show ?case by simp
next
  case (2 a)
  note b = sextet_bounds [of "of_char a" "of_char a" "of_char a"]
  show ?case by (simp add: Let_def b64_char_in_alphabet b)
next
  case (3 a b)
  note b = sextet_bounds [of "of_char a" "of_char b" "of_char b"]
  show ?case by (simp add: Let_def b64_char_in_alphabet b)
next
  case (4 a b c rest)
  note b = sextet_bounds [of "of_char a" "of_char b" "of_char c"]
  from "4.IH" [OF refl refl refl] show ?case by (simp add: Let_def b64_char_in_alphabet b)
qed

lemma urlsafe_tr_inj:
  "inj_on (\<lambda>c. if c = CHR ''+'' then CHR ''-'' else if c = CHR ''/'' then CHR ''_'' else c)
     (insert (CHR ''='') (set b64_alphabet))"
proof (rule inj_onI)
  fix c d
  assume c: "c \<in> insert (CHR ''='') (set b64_alphabet)"
    and d: "d \<in> insert (CHR ''='') (set b64_alphabet)"
    and e: "(if c = CHR ''+'' then CHR ''-'' else if c = CHR ''/'' then CHR ''_'' else c) =
            (if d = CHR ''+'' then CHR ''-'' else if d = CHR ''/'' then CHR ''_'' else d)"
  have a: "CHR ''-'' \<notin> insert (CHR ''='') (set b64_alphabet)"
    and b: "CHR ''_'' \<notin> insert (CHR ''='') (set b64_alphabet)"
    by (simp_all add: b64_alphabet_def)
  have c1: "c \<noteq> CHR ''-''" "c \<noteq> CHR ''_''" using a b c by blast+
  have d1: "d \<noteq> CHR ''-''" "d \<noteq> CHR ''_''" using a b d by blast+
  show "c = d"
    using e c1 d1 by (simp split: if_splits)
qed

lemma b64encode_inj: "b64encode x = b64encode y \<Longrightarrow> x = y"
proof -
  assume "b64encode x = b64encode y"
  then have "b64decode (b64encode x) = b64decode (b64encode y)" by simp
  then show "x = y" by (simp add: b64decode_encode)
qed

lemma urlsafe_b64encode_inj: "urlsafe_b64encode x = urlsafe_b64encode y \<Longrightarrow> x = y"
proof -
  assume e: "urlsafe_b64encode x = urlsafe_b64encode y"
  have "inj_on (\<lambda>c. if c = CHR ''+'' then CHR ''-'' else if c = CHR ''/'' then CHR ''_'' else c)
     (set (b64encode x) \<union> set (b64encode y))"
    using b64encode_chars [of x] b64encode_chars [of y]
    by (intro inj_on_subset [OF urlsafe_tr_inj]) simp
  then have "b64encode x = b64encode y"
    using e unfolding urlsafe_b64encode_def by (rule inj_on_map_eq_map [THEN iffD1])
  then show "x = y" by (rule b64encode_inj)
qed

lemma urlsafe_nonempty: "s \<noteq> [] \<Longrightarrow> urlsafe_b64encode s \<noteq> []"
  by (cases s rule: b64encode.cases) (simp_all add: urlsafe_b64encode_def Let_def)

lemma encrypt_wallet_file:
  assumes "pbkdf2 c salt0 pw \<noteq> []"
  shows "snd (snd (encrypt_wallet c salt0 rnd pw w disk)) =
     Some (salt0 @ fernet_encrypt c (urlsafe_b64encode (pbkdf2 c salt0 pw)) rnd
                     (json_dumps c (accounts w)))"
  using urlsafe_nonempty [OF assms]
  by (simp add: encrypt_wallet_def save_wallet_def Let_def falsy_def text_of_def)

lemma decrypt_wallet_of_file:
  assumes "length salt0 = 16"
  shows "decrypt_wallet c password w0 (Some (salt0 @ token)) =
     (case fernet_decrypt c (urlsafe_b64encode (pbkdf2 c salt0 password)) token of
        None \<Rightarrow> (False, w0)
      | Some decrypted_data \<Rightarrow>
          (case json_loads c decrypted_data of
             None \<Rightarrow> (False, w0)
           | Some accs \<Rightarrow>
               (True, w0\<lparr>accounts := accs,
                  encryption_key := Some (urlsafe_b64encode (pbkdf2 c salt0 password)),
                  salt := Some salt0, is_encrypted := True\<rparr>)))"
  using assms by (simp add: decrypt_wallet_def Let_def)

lemma urlsafe_no_bar: "CHR ''|'' \<notin> set (urlsafe_b64encode x)"
proof -
  have "set (urlsafe_b64encode x) \<subseteq>
      (\<lambda>c. if c = CHR ''+'' then CHR ''-'' else if c = CHR ''/'' then CHR ''_'' else c) `
        insert (CHR ''='') (set b64_alphabet)"
    using b64encode_chars [of x] by (auto simp: urlsafe_b64encode_def)
  moreover have "CHR ''|'' \<notin>
      (\<lambda>c. if c = CHR ''+'' then CHR ''-'' else if c = CHR ''/'' then CHR ''_'' else c) `
        insert (CHR ''='') (set b64_alphabet)"
    by (simp add: b64_alphabet_def)
  ultimately show ?thesis by blast
qed

lemma takeWhile_key: "CHR ''|'' \<notin> set k \<Longrightarrow> takeWhile (\<lambda>c. c \<noteq> CHR ''|'') (k @ CHR ''|'' # m) = k"
  by (induction k) auto

text \<open>
  Claim C3. Encrypting the vault with a password and decrypting the file written with
  the same password succeeds and restores the accounts exactly. Decrypting with a wrong
  password, one that derives another key, fails: \<^verbatim>\<open>decrypt_wallet\<close> returns False and
  the wallet keeps the state it had, so no accounts parsed from a wrongly decrypted file
  are ever installed. What is assumed of the libraries is their contract at the vault's
  key: PBKDF2 returns 32 bytes, Fernet decrypts its own token under the same key and
  rejects it under every other key, and parsing the serialised accounts gives them back.
\<close>

theorem vault_round_trip:
  assumes "length salt0 = 16"
    and "length (pbkdf2 c salt0 pw) = 32"
    and "fernet_decrypt c (urlsafe_b64encode (pbkdf2 c salt0 pw))
           (fernet_encrypt c (urlsafe_b64encode (pbkdf2 c salt0 pw)) rnd
              (json_dumps c (accounts w))) = Some (json_dumps c (accounts w))"
    and "\<forall>k'. k' \<noteq> urlsafe_b64encode (pbkdf2 c salt0 pw) \<longrightarrow>
           fernet_decrypt c k'
             (fernet_encrypt c (urlsafe_b64encode (pbkdf2 c salt0 pw)) rnd
                (json_dumps c (accounts w))) = None"
    and "json_loads c (json_dumps c (accounts w)) = Some (accounts w)"
  shows "fst (decrypt_wallet c pw w0 (snd (snd (encrypt_wallet c salt0 rnd pw w disk)))) \<and>
    accounts (snd (decrypt_wallet c pw w0 (snd (snd (encrypt_wallet c salt0 rnd pw w disk)))))
      = accounts w \<and>
    (\<forall>pw'. pbkdf2 c salt0 pw' \<noteq> pbkdf2 c salt0 pw \<longrightarrow>
       decrypt_wallet c pw' w0 (snd (snd (encrypt_wallet c salt0 rnd pw w disk))) = (False, w0))"
proof -
  have ne: "pbkdf2 c salt0 pw \<noteq> []" using assms(2) by auto
  note f = encrypt_wallet_file [OF ne]
  have 1: "decrypt_wallet c pw w0 (snd (snd (encrypt_wallet c salt0 rnd pw w disk))) =
     (True, w0\<lparr>accounts := accounts w,
        encryption_key := Some (urlsafe_b64encode (pbkdf2 c salt0 pw)),
        salt := Some salt0, is_encrypted := True\<rparr>)"
    unfolding f decrypt_wallet_of_file [OF assms(1)] by (simp add: assms(3) assms(5))
  have 2: "\<forall>pw'. pbkdf2 c salt0 pw' \<noteq> pbkdf2 c salt0 pw \<longrightarrow>
       decrypt_wallet c pw' w0 (snd (snd (encrypt_wallet c salt0 rnd pw w disk))) = (False, w0)"
  proof (intro allI impI)
    fix pw' assume d: "pbkdf2 c salt0 pw' \<noteq> pbkdf2 c salt0 pw"
    then have "urlsafe_b64encode (pbkdf2 c salt0 pw') \<noteq> urlsafe_b64encode (pbkdf2 c salt0 pw)"
      using urlsafe_b64encode_inj by blast
    then have "fernet_decrypt c (urlsafe_b64encode (pbkdf2 c salt0 pw'))
             (fernet_encrypt c (urlsafe_b64encode (pbkdf2 c salt0 pw)) rnd
                (json_dumps c (accounts w))) = None"
      using assms(4) by blast
    then show "decrypt_wallet c pw' w0 (snd (snd (encrypt_wallet c salt0 rnd pw w disk))) = (False, w0)"
      unfolding f decrypt_wallet_of_file [OF assms(1)] by simp
  qed
  from 1 2 show ?thesis by simp
qed

theorem vault_round_trip_witness:
  "length demo_salt = 16 \<and>
   pbkdf2 toy_crypto demo_salt ''no'' \<noteq> pbkdf2 toy_crypto demo_salt ''pw'' \<and>
   fst (decrypt_wallet toy_crypto ''pw'' unopened_wallet
          (snd (snd (encrypt_wallet toy_crypto demo_salt ''iv'' ''pw'' demo_wallet None)))) \<and>
   accounts (snd (decrypt_wallet toy_crypto ''pw'' unopened_wallet
          (snd (snd (encrypt_wallet toy_crypto demo_salt ''iv'' ''pw'' demo_wallet None)))))
     = accounts demo_wallet \<and>
   decrypt_wallet toy_crypto ''no'' unopened_wallet
          (snd (snd (encrypt_wallet toy_crypto demo_salt ''iv'' ''pw'' demo_wallet None)))
     = (False, unopened_wallet)"
proof -
  let ?k = "urlsafe_b64encode (pbkdf2 toy_crypto demo_salt ''pw'')"
  let ?pt = "json_dumps toy_crypto (accounts demo_wallet)"
  have h1: "length demo_salt = 16" by (simp add: demo_salt_def)
  have h2: "length (pbkdf2 toy_crypto demo_salt ''pw'') = 32"
    by (simp add: toy_crypto_def demo_salt_def)
  have tok: "fernet_encrypt toy_crypto ?k ''iv'' ?pt = ?k @ CHR ''|'' # ?pt"
    by (simp add: toy_crypto_def)
  have tw: "takeWhile (\<lambda>c. c \<noteq> CHR ''|'') (?k @ CHR ''|'' # ?pt) = ?k"
    by (rule takeWhile_key [OF urlsafe_no_bar])
  have h3: "fernet_decrypt toy_crypto ?k (fernet_encrypt toy_crypto ?k ''iv'' ?pt) = Some ?pt"
    unfolding tok using tw by (simp add: toy_crypto_def)
  have h4: "\<forall>k'. k' \<noteq> ?k \<longrightarrow>
      fernet_decrypt toy_crypto k' (fernet_encrypt toy_crypto ?k ''iv'' ?pt) = None"
    unfolding tok using tw by (simp add: toy_crypto_def)
  have h5: "json_loads toy_crypto ?pt = Some (accounts demo_wallet)"
    by (simp add: toy_crypto_def demo_wallet_def)
  have d: "pbkdf2 toy_crypto demo_salt ''no'' \<noteq> pbkdf2 toy_crypto demo_salt ''pw''"
    by (simp add: toy_crypto_def demo_salt_def)
  show ?thesis
    using vault_round_trip [OF h1 h2 h3 h4 h5, of unopened_wallet None] d h1 by simp
qed

end
